theory Spec2Isabelle
  imports
    Main
    "HOL-Library.Char_ord"
    "HOL-Library.List_Lexorder"
    "HOL-Library.Multiset"
begin

section \<open>Python text\<close>

text \<open>
  A Python \<open>str\<close> is a sequence of code points. A \<^typ>\<open>char\<close> holds one code point in
  the range 0..255, so a \<^typ>\<open>string\<close> is a Python \<open>str\<close> over the first 256 code
  points; \<^const>\<open>length\<close> is \<open>len\<close>, and the order of \<^typ>\<open>string\<close> (code points
  compared from the left, a proper prefix being smaller) is the order of \<open>str\<close>. The
  two character classes below are those of CPython 3 on that range.
\<close>

definition isspace :: "char \<Rightarrow> bool" where
  \<comment> \<open>The characters \<open>str.split()\<close> and \<open>str.strip()\<close> treat as whitespace:
      TAB, LF, VT, FF, CR, FS, GS, RS, US, SPACE, NEL and NO-BREAK SPACE.\<close>
  "isspace c =
     (let n = (of_char c :: nat)
      in (9 \<le> n \<and> n \<le> 13) \<or> (28 \<le> n \<and> n \<le> 32) \<or> n = 133 \<or> n = 160)"

definition isdigit :: "char \<Rightarrow> bool" where
  \<comment> \<open>The characters \<open>str.isdigit()\<close> accepts: the decimal digits 0..9 and the
      superscript digits two, three and one (U+00B2, U+00B3, U+00B9).\<close>
  "isdigit c =
     (let n = (of_char c :: nat)
      in (48 \<le> n \<and> n \<le> 57) \<or> n = 178 \<or> n = 179 \<or> n = 185)"

definition str_isdigit :: "string \<Rightarrow> bool" where
  \<comment> \<open>\<open>s.isdigit()\<close>: every character is a digit and there is at least one.\<close>
  "str_isdigit s = (s \<noteq> [] \<and> list_all isdigit s)"

definition str_strip :: "string \<Rightarrow> string" where
  \<comment> \<open>\<open>s.strip()\<close>: leading and trailing whitespace removed.\<close>
  "str_strip s = rev (dropWhile isspace (rev (dropWhile isspace s)))"

function str_split :: "string \<Rightarrow> string list" where
  \<comment> \<open>\<open>s.split()\<close>: skip whitespace, take the run of non-whitespace, repeat.\<close>
  "str_split s =
     (let t = dropWhile isspace s
      in if t = [] then []
         else takeWhile (\<lambda>c. \<not> isspace c) t # str_split (dropWhile (\<lambda>c. \<not> isspace c) t))"
  by pat_completeness auto
termination
proof (relation "measure length")
  show "wf (measure length)" by simp
next
  fix s t :: string
  assume t: "t = dropWhile isspace s" and ne: "t \<noteq> []"
  from ne obtain c cs where tc: "t = c # cs" by (cases t) auto
  from t tc have "\<not> isspace c" by (metis hd_dropWhile list.sel(1) ne)
  with tc have "length (dropWhile (\<lambda>c. \<not> isspace c) t) \<le> length cs"
    by (simp add: length_dropWhile_le)
  also have "length cs < length t" using tc by simp
  also have "length t \<le> length s" using t by (simp add: length_dropWhile_le)
  finally show "(dropWhile (\<lambda>c. \<not> isspace c) t, s) \<in> measure length" by simp
qed

declare str_split.simps [simp del]

section \<open>Entry\<close>

record PhoneBookEntry =
  name :: string
  surname :: string
  separator :: string
  phone_number :: string

datatype error =
  ValueError string
  \<comment> \<open>\<open>raise ValueError(message)\<close>\<close>
| UnicodeDecodeError string
  \<comment> \<open>raised while a file is decoded; a \<open>ValueError\<close>, not an \<open>IOError\<close>\<close>
| SystemExit string nat
  \<comment> \<open>\<open>print(message)\<close> followed by \<open>sys.exit(status)\<close>\<close>

definition init :: "string \<Rightarrow> string \<Rightarrow> string \<Rightarrow> string \<Rightarrow> PhoneBookEntry" where
  \<comment> \<open>\<open>PhoneBookEntry.__init__\<close>: four assignments, no check.\<close>
  "init n s sep p = \<lparr>name = n, surname = s, separator = sep, phone_number = p\<rparr>"

definition set_name :: "PhoneBookEntry \<Rightarrow> string \<Rightarrow> error + PhoneBookEntry" where
  "set_name e v =
     (if v = [] then Inl (ValueError ''Name cannot be empty'')
      else Inr (e\<lparr>name := v\<rparr>))"

definition set_surname :: "PhoneBookEntry \<Rightarrow> string \<Rightarrow> error + PhoneBookEntry" where
  "set_surname e v =
     (if v = [] then Inl (ValueError ''Surname cannot be empty'')
      else Inr (e\<lparr>surname := v\<rparr>))"

definition set_separator :: "PhoneBookEntry \<Rightarrow> string \<Rightarrow> error + PhoneBookEntry" where
  "set_separator e v =
     (if v \<noteq> ''-'' \<and> v \<noteq> '':'' then Inl (ValueError (''Separator must be '-' or ':'' @ [CHR 0x27]))
      else Inr (e\<lparr>separator := v\<rparr>))"


section \<open>Validator\<close>

definition validate_phone_book_entry :: "PhoneBookEntry \<Rightarrow> string list" where
  "validate_phone_book_entry e =
     (let m0 = [];
          m1 = (if name e = [] then m0 @ [''Name cannot be empty''] else m0);
          m2 = (if \<not> str_isdigit (phone_number e)
                then m1 @ [''phone number must be numeric''] else m1);
          m3 = (if length (phone_number e) \<noteq> 9
                then m2 @ [''phone number must be 9 digits''] else m2);
          m4 = (if separator e \<noteq> '':'' \<and> separator e \<noteq> ''-''
                then m3 @ [''the separator should be `:` or `-`''] else m3)
      in m4)"

section \<open>Parser\<close>

datatype file_result =
  FileNotFoundError
  \<comment> \<open>\<open>open\<close> raises \<open>FileNotFoundError\<close>\<close>
| IOError string
  \<comment> \<open>\<open>open\<close> or the reading raises another \<open>IOError\<close>, with its text\<close>
| Raises error
  \<comment> \<open>\<open>open\<close> or the reading raises an exception that is no \<open>IOError\<close>:
      \<open>ValueError\<close> for a path with a null byte, \<open>UnicodeDecodeError\<close> for bytes
      that do not decode\<close>
| Lines "string list"
  \<comment> \<open>the lines the iteration over the file yields, in file order\<close>

fun read_lines :: "string list \<Rightarrow> PhoneBookEntry list \<Rightarrow> PhoneBookEntry list" where
  \<comment> \<open>The \<open>for line in file\<close> loop; the second argument is \<open>phone_book_entries\<close>.\<close>
  "read_lines [] phone_book_entries = phone_book_entries"
| "read_lines (line # rest) phone_book_entries =
     (let values = str_split (str_strip line)
      in if length values = 4 then
           read_lines rest
             (phone_book_entries @ [init (values ! 0) (values ! 1) (values ! 2) (values ! 3)])
         else if length values = 3 then
           read_lines rest
             (phone_book_entries @ [init (values ! 0) [] (values ! 1) (values ! 2)])
         else read_lines rest phone_book_entries)"

definition read_phone_book :: "(string \<Rightarrow> file_result) \<Rightarrow> string \<Rightarrow> error + PhoneBookEntry list" where
  \<comment> \<open>The first argument is the file system: what opening and reading a path gives.
      The two \<open>except\<close> clauses catch \<open>FileNotFoundError\<close> and \<open>IOError\<close>; any
      other exception leaves the function as it is.\<close>
  "read_phone_book fs file_path =
     (case fs file_path of
        Lines ls \<Rightarrow> Inr (read_lines ls [])
      | FileNotFoundError \<Rightarrow> Inl (SystemExit (''File not found: '' @ file_path) 1)
      | IOError e \<Rightarrow>
          Inl (SystemExit (''An error occurred while reading the file: '' @ e) 1)
      | Raises x \<Rightarrow> Inl x)"

section \<open>Sorter\<close>

definition sorted_py :: "('a \<Rightarrow> 'k::linorder) \<Rightarrow> bool \<Rightarrow> 'a list \<Rightarrow> 'a list" where
  \<comment> \<open>The builtin \<open>sorted(xs, key=key, reverse=reverse)\<close>. It is a stable sort by the
      key; with \<open>reverse\<close> the list is reversed, sorted stably and reversed again, as
      \<open>list.sort\<close> does.\<close>
  "sorted_py key reverse xs =
     (if reverse then rev (sort_key key (rev xs)) else sort_key key xs)"

definition getattr :: "PhoneBookEntry \<Rightarrow> string \<Rightarrow> string" where
  \<comment> \<open>\<open>getattr(phone_book_entry, criteria, None)\<close> behind the guard of
      \<open>sort_phone_book\<close>, where \<open>criteria\<close> is one of the three property names.\<close>
  "getattr e criteria =
     (if criteria = ''name'' then name e
      else if criteria = ''surname'' then surname e
      else phone_number e)"

definition sort_phone_book ::
  "PhoneBookEntry list \<Rightarrow> string \<Rightarrow> string \<Rightarrow> error + PhoneBookEntry list" where
  "sort_phone_book phone_book_entries criteria ordering' =
     (if criteria \<in> {''name'', ''surname'', ''phone_number''} then
        (let key = (\<lambda>phone_book_entry. getattr phone_book_entry criteria);
             reverse = (ordering' = ''descending'')
         in Inr (sorted_py key reverse phone_book_entries))
      else
        Inl (SystemExit
          ''War: Wrong criteria, please choose one of this [Name, Surname, Phone_Number] '' 1))"

fun str_le :: "string \<Rightarrow> string \<Rightarrow> bool" where
  \<comment> \<open>\<open>a <= b\<close> on \<open>str\<close>: the first differing code point decides, and a prefix is
      smaller.\<close>
  "str_le [] b = True"
| "str_le (x # a) [] = False"
| "str_le (x # a) (y # b) =
     ((of_char x :: nat) < of_char y \<or> (x = y \<and> str_le a b))"

definition non_decreasing :: "string \<Rightarrow> PhoneBookEntry list \<Rightarrow> bool" where
  "non_decreasing criteria es =
     sorted_wrt (\<lambda>a b. str_le (getattr a criteria) (getattr b criteria)) es"

definition non_increasing :: "string \<Rightarrow> PhoneBookEntry list \<Rightarrow> bool" where
  "non_increasing criteria es =
     sorted_wrt (\<lambda>a b. str_le (getattr b criteria) (getattr a criteria)) es"

section \<open>The specification's notions\<close>

text \<open>
  The specification speaks of the tokens of a line, of the entry a line gives and of
  decimal digits. The definitions of this section follow its words; the theorems below
  compare them with the functions above.
\<close>

fun tokens_from :: "string \<Rightarrow> string \<Rightarrow> string list" where
  \<comment> \<open>One pass over the text, a character at a time; the first argument is the token
      being read. A whitespace character ends it, further ones are passed over.\<close>
  "tokens_from tok [] = (if tok = [] then [] else [tok])"
| "tokens_from tok (c # cs) =
     (if isspace c then (if tok = [] then tokens_from [] cs else tok # tokens_from [] cs)
      else tokens_from (tok @ [c]) cs)"

definition tokens :: "string \<Rightarrow> string list" where
  \<comment> \<open>The line split on runs of whitespace.\<close>
  "tokens line = tokens_from [] line"

definition line_entries :: "string \<Rightarrow> PhoneBookEntry list" where
  \<comment> \<open>What one line contributes: an entry for four tokens, an entry with the empty
      surname for three, nothing otherwise.\<close>
  "line_entries line =
     (case tokens line of
        [a, b, c, d] \<Rightarrow> [\<lparr>name = a, surname = b, separator = c, phone_number = d\<rparr>]
      | [a, c, d] \<Rightarrow> [\<lparr>name = a, surname = [], separator = c, phone_number = d\<rparr>]
      | _ \<Rightarrow> [])"




section \<open>Auxiliary facts\<close>

lemma str_le_iff: "str_le a b \<longleftrightarrow> a \<le> b"
  by (induction a b rule: str_le.induct) (auto simp: less_char_def)

lemma mset_sorted_py: "mset (sorted_py key reverse xs) = mset xs"
  by (simp add: sorted_py_def)

lemma length_sorted_py: "length (sorted_py key reverse xs) = length xs"
  by (simp add: sorted_py_def)

lemma filter_sorted_py:
  "filter (\<lambda>x. key x = k) (sorted_py key reverse xs) = filter (\<lambda>x. key x = k) xs"
proof (cases reverse)
  case True
  have "filter (\<lambda>x. key x = k) (rev (sort_key key (rev xs)))
      = rev (filter (\<lambda>x. key x = k) (sort_key key (rev xs)))"
    by (simp add: rev_filter)
  also have "\<dots> = rev (filter (\<lambda>x. key x = k) (rev xs))"
    by (simp only: sort_key_stable)
  also have "\<dots> = filter (\<lambda>x. key x = k) xs"
    by (simp add: rev_filter)
  finally show ?thesis using True by (simp add: sorted_py_def)
next
  case False
  then show ?thesis by (simp add: sorted_py_def sort_key_stable)
qed

lemma sorted_py_ascending: "sorted_wrt (\<lambda>a b. key a \<le> key b) (sorted_py key False xs)"
  using sorted_sort_key [of key xs] by (simp add: sorted_py_def sorted_map)

lemma sorted_py_descending: "sorted_wrt (\<lambda>a b. key b \<le> key a) (sorted_py key True xs)"
proof -
  have "sorted_wrt (\<lambda>a b. key a \<le> key b) (sort_key key (rev xs))"
    using sorted_sort_key [of key "rev xs"] by (simp add: sorted_map)
  then show ?thesis by (simp add: sorted_py_def sorted_wrt_rev)
qed

lemma sort_phone_book_Inr:
  "criteria \<in> {''name'', ''surname'', ''phone_number''} \<Longrightarrow>
   sort_phone_book xs criteria ordering' =
     Inr (sorted_py (\<lambda>e. getattr e criteria) (ordering' = ''descending'') xs)"
  by (simp add: sort_phone_book_def)

lemma isspace_dropWhile_hd: "dropWhile isspace s = c # cs \<Longrightarrow> \<not> isspace c"
  by (metis hd_dropWhile list.sel(1) list.distinct(1))

lemma str_split_Nil: "str_split [] = []"
  by (simp add: str_split.simps)

lemma str_split_space: "isspace c \<Longrightarrow> str_split (c # cs) = str_split cs"
  by (subst str_split.simps, subst (2) str_split.simps) simp

lemma str_split_nonspace:
  "\<not> isspace c \<Longrightarrow>
   str_split (c # cs) =
     (c # takeWhile (\<lambda>c. \<not> isspace c) cs) # str_split (dropWhile (\<lambda>c. \<not> isspace c) cs)"
  by (subst str_split.simps) simp

lemma tokens_from_split:
  "tokens_from tok s =
     (if tok = [] then str_split s
      else (tok @ takeWhile (\<lambda>c. \<not> isspace c) s) # str_split (dropWhile (\<lambda>c. \<not> isspace c) s))"
proof (induction s arbitrary: tok)
  case Nil
  then show ?case by (simp add: str_split_Nil)
next
  case (Cons c cs)
  show ?case
  proof (cases "isspace c")
    case True
    then show ?thesis by (simp add: Cons.IH [of "[]"] str_split_space)
  next
    case False
    then show ?thesis by (simp add: Cons.IH [of "tok @ [c]"] str_split_nonspace)
  qed
qed

lemma tokens_split: "tokens s = str_split s"
  by (simp add: tokens_def tokens_from_split)

lemma tokens_from_trailing: "list_all isspace w \<Longrightarrow> tokens_from tok (s @ w) = tokens_from tok s"
proof (induction s arbitrary: tok)
  case Nil
  then show ?case by (induction w arbitrary: tok) auto
next
  case (Cons c cs)
  then show ?case by simp
qed

lemma tokens_from_leading: "tokens_from [] (dropWhile isspace s) = tokens_from [] s"
  by (induction s) auto

lemma strip_decomp: "\<exists>w. list_all isspace w \<and> dropWhile isspace s = str_strip s @ w"
proof -
  let ?t = "dropWhile isspace s"
  let ?w = "rev (takeWhile isspace (rev ?t))"
  have "str_strip s @ ?w = rev (takeWhile isspace (rev ?t) @ dropWhile isspace (rev ?t))"
    unfolding str_strip_def by (simp only: rev_append)
  also have "\<dots> = rev (rev ?t)"
    by (simp only: takeWhile_dropWhile_id)
  finally have "?t = str_strip s @ ?w" by simp
  moreover have "list_all isspace ?w"
    by (simp add: list_all_iff) (meson set_takeWhileD)
  ultimately show ?thesis by blast
qed

lemma tokens_strip: "tokens (str_strip s) = tokens s"
proof -
  obtain w where w: "list_all isspace w" "dropWhile isspace s = str_strip s @ w"
    using strip_decomp by blast
  have "tokens s = tokens_from [] (dropWhile isspace s)"
    by (simp add: tokens_def tokens_from_leading)
  also have "\<dots> = tokens_from [] (str_strip s)"
    using w by (simp add: tokens_from_trailing)
  finally show ?thesis by (simp add: tokens_def)
qed

lemma split_strip: "str_split (str_strip s) = tokens s"
  using tokens_strip [of s] by (simp add: tokens_split)

lemma sorted_py_direction:
  "if reverse then sorted_wrt (\<lambda>a b. str_le (key b) (key a)) (sorted_py key reverse xs)
   else sorted_wrt (\<lambda>a b. str_le (key a) (key b)) (sorted_py key reverse xs)"
  using sorted_py_ascending [of key xs] sorted_py_descending [of key xs]
  by (cases reverse) (simp_all add: str_le_iff)

lemma getattr_name: "(\<lambda>e. getattr e ''name'') = name"
  by (rule ext) (simp add: getattr_def)

lemma getattr_surname: "(\<lambda>e. getattr e ''surname'') = surname"
  by (rule ext) (simp add: getattr_def)

lemma getattr_phone_number: "(\<lambda>e. getattr e ''phone_number'') = phone_number"
  by (rule ext) (simp add: getattr_def)

lemma sort_by_name:
  "sort_phone_book xs ''name'' ordering' = Inr (sorted_py name (ordering' = ''descending'') xs)"
  by (simp add: sort_phone_book_def getattr_name)

lemma sort_by_surname:
  "sort_phone_book xs ''surname'' ordering'
     = Inr (sorted_py surname (ordering' = ''descending'') xs)"
  by (simp add: sort_phone_book_def getattr_surname)

lemma sort_by_phone_number:
  "sort_phone_book xs ''phone_number'' ordering'
     = Inr (sorted_py phone_number (ordering' = ''descending'') xs)"
  by (simp add: sort_phone_book_def getattr_phone_number)







lemma line_entries_values:
  "line_entries line =
     (let values = str_split (str_strip line)
      in if length values = 4 then [init (values ! 0) (values ! 1) (values ! 2) (values ! 3)]
         else if length values = 3 then [init (values ! 0) [] (values ! 1) (values ! 2)]
         else [])"
proof -
  obtain ts where ts: "str_split (str_strip line) = ts" by simp
  then have t: "tokens line = ts" by (simp add: split_strip)
  show ?thesis
    unfolding line_entries_def t ts Let_def
    by (cases ts rule: list.exhaust; simp add: init_def split: list.splits)
qed

lemma read_lines_entries:
  "read_lines ls acc = acc @ concat (map line_entries ls)"
proof (induction ls arbitrary: acc)
  case Nil
  then show ?case by simp
next
  case (Cons line rest)
  show ?case
    by (simp add: Cons.IH line_entries_values Let_def)
qed

lemma tokens_from_wellformed:
  "list_all (\<lambda>c. \<not> isspace c) tok \<Longrightarrow> t \<in> set (tokens_from tok s) \<Longrightarrow>
   t \<noteq> [] \<and> list_all (\<lambda>c. \<not> isspace c) t"
proof (induction s arbitrary: tok)
  case Nil
  then show ?case by (auto split: if_splits)
next
  case (Cons c cs)
  show ?case
  proof (cases "isspace c")
    case True
    with Cons.prems Cons.IH [of "[]"] show ?thesis
      by (auto split: if_splits)
  next
    case False
    with Cons.prems Cons.IH [of "tok @ [c]"] show ?thesis
      by auto
  qed
qed

lemma tokens_wellformed:
  "t \<in> set (tokens line) \<Longrightarrow> t \<noteq> [] \<and> list_all (\<lambda>c. \<not> isspace c) t"
  unfolding tokens_def using tokens_from_wellformed [of "[]" t line] by simp

lemma line_entries_fields:
  assumes "e \<in> set (line_entries line)"
  shows "name e \<noteq> [] \<and> separator e \<noteq> [] \<and> phone_number e \<noteq> []
         \<and> list_all (\<lambda>c. \<not> isspace c) (name e @ surname e @ separator e @ phone_number e)"
proof -
  let ?vs = "str_split (str_strip line)"
  have wf: "?vs ! i \<noteq> [] \<and> list_all (\<lambda>c. \<not> isspace c) (?vs ! i)"
    if "i < length ?vs" for i
    using that tokens_wellformed [of "?vs ! i" line] by (simp add: split_strip)
  consider (four) "length ?vs = 4"
      "e = init (?vs ! 0) (?vs ! 1) (?vs ! 2) (?vs ! 3)"
    | (three) "length ?vs = 3" "e = init (?vs ! 0) [] (?vs ! 1) (?vs ! 2)"
    using assms unfolding line_entries_values Let_def by (auto split: if_splits)
  then show ?thesis
  proof cases
    case four
    with wf [of 0] wf [of 1] wf [of 2] wf [of 3] show ?thesis
      by (simp add: init_def)
  next
    case three
    with wf [of 0] wf [of 1] wf [of 2] show ?thesis
      by (simp add: init_def)
  qed
qed

lemma validate_name_message:
  "name e \<noteq> [] \<Longrightarrow> ''Name cannot be empty'' \<notin> set (validate_phone_book_entry e)"
  by (simp add: validate_phone_book_entry_def Let_def)

lemma line_entries_cases:
  "(tokens line = [a, b, c, d] \<longrightarrow>
      line_entries line = [\<lparr>name = a, surname = b, separator = c, phone_number = d\<rparr>])
   \<and> (tokens line = [a, c, d] \<longrightarrow>
      line_entries line = [\<lparr>name = a, surname = [], separator = c, phone_number = d\<rparr>])
   \<and> (length (tokens line) \<noteq> 4 \<and> length (tokens line) \<noteq> 3 \<longrightarrow> line_entries line = [])"
  by (auto simp: line_entries_def split: list.splits)

section \<open>Validator and Entry\<close>

text \<open>
  C1, as amended. For the Entry with name "John", surname "Smith", separator "-" and
  phone number "12345678a" the Validator returns exactly the one message
  "phone number must be numeric": the phone number has nine characters, so the length
  check passes.
\<close>

theorem validate_john_smith:
  "validate_phone_book_entry (init ''John'' ''Smith'' ''-'' ''12345678a'')
     = [''phone number must be numeric'']"
  by (simp add: validate_phone_book_entry_def init_def str_isdigit_def isdigit_def)

text \<open>
  C1, as stated, fails: the returned list does not hold both messages, since
  "phone number must be 9 digits" is absent.
\<close>

theorem validate_john_smith_not_both:
  "\<not> (''phone number must be numeric''
          \<in> set (validate_phone_book_entry (init ''John'' ''Smith'' ''-'' ''12345678a''))
      \<and> ''phone number must be 9 digits''
          \<in> set (validate_phone_book_entry (init ''John'' ''Smith'' ''-'' ''12345678a'')))"
  by (simp add: validate_phone_book_entry_def init_def str_isdigit_def isdigit_def)

text \<open>
  C7. The bulk constructor has no failing branch and no check: for any four strings the
  Entry it builds holds exactly these strings in the corresponding fields.
\<close>

theorem init_stores_raw_values:
  "name (init n s sep p) = n \<and> surname (init n s sep p) = s
   \<and> separator (init n s sep p) = sep \<and> phone_number (init n s sep p) = p"
  by (simp add: init_def)

section \<open>Sorter: the claims\<close>

lemma non_decreasing_sorted_py:
  "non_decreasing criteria (sorted_py (\<lambda>e. getattr e criteria) False xs)"
  using sorted_py_ascending [of "\<lambda>e. getattr e criteria" xs]
  by (simp add: non_decreasing_def str_le_iff)

lemma non_increasing_sorted_py:
  "non_increasing criteria (sorted_py (\<lambda>e. getattr e criteria) True xs)"
  using sorted_py_descending [of "\<lambda>e. getattr e criteria" xs]
  by (simp add: non_increasing_def str_le_iff)

text \<open>
  C2. The sort is stable in both modes: for every input list, every valid criterion and
  every ordering string, the entries with any given value \<open>k\<close> of the chosen field occur
  in the output in the same order as in the input.
\<close>

theorem sort_phone_book_stable:
  assumes "criteria \<in> {''name'', ''surname'', ''phone_number''}"
  shows "\<exists>ys. sort_phone_book xs criteria ordering' = Inr ys
           \<and> (\<forall>k. filter (\<lambda>e. getattr e criteria = k) ys
                   = filter (\<lambda>e. getattr e criteria = k) xs)"
proof -
  let ?key = "\<lambda>e. getattr e criteria"
  let ?ys = "sorted_py ?key (ordering' = ''descending'') xs"
  have "sort_phone_book xs criteria ordering' = Inr ?ys"
    using assms by (rule sort_phone_book_Inr)
  moreover have "filter (\<lambda>e. getattr e criteria = k) ?ys
                   = filter (\<lambda>e. getattr e criteria = k) xs" for k
    by (rule filter_sorted_py [of ?key])
  ultimately show ?thesis by blast
qed

text \<open>
  C2 at a concrete input: sorted by name in descending mode, the two entries named Bob
  and the two named Ann keep their input order.
\<close>

theorem sort_phone_book_stable_witness:
  "sort_phone_book
     [init ''Bob'' ''1'' '':'' ''5'', init ''Ann'' ''2'' '':'' ''5'',
      init ''Bob'' ''3'' '':'' ''5'', init ''Ann'' ''4'' '':'' ''5''] ''name'' ''descending''
   = Inr [init ''Bob'' ''1'' '':'' ''5'', init ''Bob'' ''3'' '':'' ''5'',
          init ''Ann'' ''2'' '':'' ''5'', init ''Ann'' ''4'' '':'' ''5'']
   \<and> filter (\<lambda>e. getattr e ''name'' = ''Bob'')
        [init ''Bob'' ''1'' '':'' ''5'', init ''Bob'' ''3'' '':'' ''5'',
         init ''Ann'' ''2'' '':'' ''5'', init ''Ann'' ''4'' '':'' ''5'']
     = filter (\<lambda>e. getattr e ''name'' = ''Bob'')
        [init ''Bob'' ''1'' '':'' ''5'', init ''Ann'' ''2'' '':'' ''5'',
         init ''Bob'' ''3'' '':'' ''5'', init ''Ann'' ''4'' '':'' ''5'']"
  using sort_phone_book_stable [of "''name''"
     "[init ''Bob'' ''1'' '':'' ''5'', init ''Ann'' ''2'' '':'' ''5'',
       init ''Bob'' ''3'' '':'' ''5'', init ''Ann'' ''4'' '':'' ''5'']" "''descending''"]
  by (simp add: sort_phone_book_def sorted_py_def getattr_def init_def)

text \<open>
  C3. For every input list and every ordering string, sorting by name, by surname and by
  phone_number each returns a list, ordered on that very field of the entries: its values
  are non-decreasing under the code-point order of strings in ascending mode, and
  non-increasing in descending mode.
\<close>

theorem sort_phone_book_field_order:
  "(\<exists>ys. sort_phone_book xs ''name'' ordering' = Inr ys
      \<and> (if ordering' = ''descending''
          then sorted_wrt (\<lambda>a b. str_le (name b) (name a)) ys
          else sorted_wrt (\<lambda>a b. str_le (name a) (name b)) ys))
   \<and> (\<exists>ys. sort_phone_book xs ''surname'' ordering' = Inr ys
      \<and> (if ordering' = ''descending''
          then sorted_wrt (\<lambda>a b. str_le (surname b) (surname a)) ys
          else sorted_wrt (\<lambda>a b. str_le (surname a) (surname b)) ys))
   \<and> (\<exists>ys. sort_phone_book xs ''phone_number'' ordering' = Inr ys
      \<and> (if ordering' = ''descending''
          then sorted_wrt (\<lambda>a b. str_le (phone_number b) (phone_number a)) ys
          else sorted_wrt (\<lambda>a b. str_le (phone_number a) (phone_number b)) ys))"
proof (intro conjI)
  show "\<exists>ys. sort_phone_book xs ''name'' ordering' = Inr ys
      \<and> (if ordering' = ''descending''
          then sorted_wrt (\<lambda>a b. str_le (name b) (name a)) ys
          else sorted_wrt (\<lambda>a b. str_le (name a) (name b)) ys)"
    using sorted_py_direction [of "ordering' = ''descending''" name xs]
    by (simp only: sort_by_name) blast
  show "\<exists>ys. sort_phone_book xs ''surname'' ordering' = Inr ys
      \<and> (if ordering' = ''descending''
          then sorted_wrt (\<lambda>a b. str_le (surname b) (surname a)) ys
          else sorted_wrt (\<lambda>a b. str_le (surname a) (surname b)) ys)"
    using sorted_py_direction [of "ordering' = ''descending''" surname xs]
    by (simp only: sort_by_surname) blast
  show "\<exists>ys. sort_phone_book xs ''phone_number'' ordering' = Inr ys
      \<and> (if ordering' = ''descending''
          then sorted_wrt (\<lambda>a b. str_le (phone_number b) (phone_number a)) ys
          else sorted_wrt (\<lambda>a b. str_le (phone_number a) (phone_number b)) ys)"
    using sorted_py_direction [of "ordering' = ''descending''" phone_number xs]
    by (simp only: sort_by_phone_number) blast
qed

text \<open>
  C3 at a concrete input: by surname in descending mode Ray moves before Lee and Fox goes
  last, in ascending mode the order is Fox, Lee, Ray; by phone number in ascending mode
  and by name in descending mode the list is reversed.
\<close>

theorem sort_phone_book_field_order_witness:
  "sort_phone_book
     [init ''Ann'' ''Lee'' ''-'' ''7'', init ''Bob'' ''Ray'' '':'' ''5'',
      init ''Cid'' ''Fox'' '':'' ''3''] ''surname'' ''descending''
     = Inr [init ''Bob'' ''Ray'' '':'' ''5'', init ''Ann'' ''Lee'' ''-'' ''7'',
            init ''Cid'' ''Fox'' '':'' ''3'']
   \<and> sorted_wrt (\<lambda>a b. str_le (surname b) (surname a))
       [init ''Bob'' ''Ray'' '':'' ''5'', init ''Ann'' ''Lee'' ''-'' ''7'',
        init ''Cid'' ''Fox'' '':'' ''3'']
   \<and> sort_phone_book
     [init ''Ann'' ''Lee'' ''-'' ''7'', init ''Bob'' ''Ray'' '':'' ''5'',
      init ''Cid'' ''Fox'' '':'' ''3''] ''surname'' ''ascending''
     = Inr [init ''Cid'' ''Fox'' '':'' ''3'', init ''Ann'' ''Lee'' ''-'' ''7'',
            init ''Bob'' ''Ray'' '':'' ''5'']
   \<and> sort_phone_book
     [init ''Ann'' ''Lee'' ''-'' ''7'', init ''Bob'' ''Ray'' '':'' ''5'',
      init ''Cid'' ''Fox'' '':'' ''3''] ''phone_number'' ''ascending''
     = Inr [init ''Cid'' ''Fox'' '':'' ''3'', init ''Bob'' ''Ray'' '':'' ''5'',
            init ''Ann'' ''Lee'' ''-'' ''7'']
   \<and> sorted_wrt (\<lambda>a b. str_le (phone_number a) (phone_number b))
       [init ''Cid'' ''Fox'' '':'' ''3'', init ''Bob'' ''Ray'' '':'' ''5'',
        init ''Ann'' ''Lee'' ''-'' ''7'']
   \<and> sort_phone_book
     [init ''Ann'' ''Lee'' ''-'' ''7'', init ''Bob'' ''Ray'' '':'' ''5'',
      init ''Cid'' ''Fox'' '':'' ''3''] ''name'' ''descending''
     = Inr [init ''Cid'' ''Fox'' '':'' ''3'', init ''Bob'' ''Ray'' '':'' ''5'',
            init ''Ann'' ''Lee'' ''-'' ''7'']"
  using sort_phone_book_field_order
    [of "[init ''Ann'' ''Lee'' ''-'' ''7'', init ''Bob'' ''Ray'' '':'' ''5'',
          init ''Cid'' ''Fox'' '':'' ''3'']" "''descending''"]
    sort_phone_book_field_order
    [of "[init ''Ann'' ''Lee'' ''-'' ''7'', init ''Bob'' ''Ray'' '':'' ''5'',
          init ''Cid'' ''Fox'' '':'' ''3'']" "''ascending''"]
  by (simp add: sort_phone_book_def sorted_py_def getattr_def init_def)


text \<open>
  C4. For a criterion outside name, surname and phone_number the sort prints its
  diagnostic and exits with status 1, returning no list; for a criterion among the three
  it returns a list.
\<close>

theorem sort_phone_book_criterion:
  "(criteria \<notin> {''name'', ''surname'', ''phone_number''} \<longrightarrow>
      sort_phone_book xs criteria ordering' =
        Inl (SystemExit
          ''War: Wrong criteria, please choose one of this [Name, Surname, Phone_Number] '' 1))
   \<and> (criteria \<in> {''name'', ''surname'', ''phone_number''} \<longrightarrow>
      (\<exists>ys. sort_phone_book xs criteria ordering' = Inr ys))"
  by (simp add: sort_phone_book_def)

text \<open>
  C4 at concrete criteria: the capitalised "Name" and the field name "separator" are
  refused, "phone_number" is accepted.
\<close>

theorem sort_phone_book_criterion_witness:
  "sort_phone_book 
     [init ''Bob'' ''Ray'' '':'' ''5'', init ''Ann'' ''Lee'' ''-'' ''7'',
      init ''Bob'' ''Fox'' '':'' ''3''] ''Name'' ''ascending''
     = Inl (SystemExit
         ''War: Wrong criteria, please choose one of this [Name, Surname, Phone_Number] '' 1)
   \<and> sort_phone_book 
     [init ''Bob'' ''Ray'' '':'' ''5'', init ''Ann'' ''Lee'' ''-'' ''7'',
      init ''Bob'' ''Fox'' '':'' ''3''] ''separator'' []
     = Inl (SystemExit
         ''War: Wrong criteria, please choose one of this [Name, Surname, Phone_Number] '' 1)
   \<and> (\<exists>ys. sort_phone_book 
     [init ''Bob'' ''Ray'' '':'' ''5'', init ''Ann'' ''Lee'' ''-'' ''7'',
      init ''Bob'' ''Fox'' '':'' ''3''] ''phone_number'' [] = Inr ys)"
  using sort_phone_book_criterion [of "''Name''" "
     [init ''Bob'' ''Ray'' '':'' ''5'', init ''Ann'' ''Lee'' ''-'' ''7'',
      init ''Bob'' ''Fox'' '':'' ''3'']" "''ascending''"]
    sort_phone_book_criterion [of "''separator''" "
     [init ''Bob'' ''Ray'' '':'' ''5'', init ''Ann'' ''Lee'' ''-'' ''7'',
      init ''Bob'' ''Fox'' '':'' ''3'']" "[]"]
    sort_phone_book_criterion [of "''phone_number''" "
     [init ''Bob'' ''Ray'' '':'' ''5'', init ''Ann'' ''Lee'' ''-'' ''7'',
      init ''Bob'' ''Fox'' '':'' ''3'']" "[]"]
  by simp

text \<open>
  C5. For a valid criterion the sort never fails, whatever the ordering string. With the
  ordering "descending" the result is the stable permutation of the input that is
  non-increasing; with any other ordering string it is the stable permutation that is
  non-decreasing, the same as the empty ordering string gives.
\<close>

theorem sort_phone_book_ordering:
  assumes "criteria \<in> {''name'', ''surname'', ''phone_number''}"
  shows "\<exists>ys. sort_phone_book xs criteria ordering' = Inr ys
           \<and> mset ys = mset xs
           \<and> (\<forall>k. filter (\<lambda>e. getattr e criteria = k) ys
                   = filter (\<lambda>e. getattr e criteria = k) xs)
           \<and> (if ordering' = ''descending'' then non_increasing criteria ys
              else non_decreasing criteria ys
                   \<and> sort_phone_book xs criteria ordering' = sort_phone_book xs criteria [])"
proof -
  let ?key = "\<lambda>e. getattr e criteria"
  let ?ys = "sorted_py ?key (ordering' = ''descending'') xs"
  have res: "sort_phone_book xs criteria ordering' = Inr ?ys"
    using assms by (rule sort_phone_book_Inr)
  have perm: "mset ?ys = mset xs"
    by (rule mset_sorted_py)
  have stable: "\<forall>k. filter (\<lambda>e. getattr e criteria = k) ?ys
                  = filter (\<lambda>e. getattr e criteria = k) xs"
    by (rule allI) (rule filter_sorted_py [of ?key])
  have dir: "if ordering' = ''descending'' then non_increasing criteria ?ys
             else non_decreasing criteria ?ys
                  \<and> sort_phone_book xs criteria ordering' = sort_phone_book xs criteria []"
    using assms
    by (simp add: sort_phone_book_Inr non_increasing_sorted_py non_decreasing_sorted_py)
  from res perm stable dir show ?thesis by (intro exI [of _ ?ys] conjI)
qed

text \<open>
  C5 at a concrete input: "descending" sorts downwards, while "Descending" and the empty
  string sort upwards, to a list that is not non-increasing.
\<close>

theorem sort_phone_book_ordering_witness:
  "sort_phone_book 
     [init ''Bob'' ''Ray'' '':'' ''5'', init ''Ann'' ''Lee'' ''-'' ''7'',
      init ''Bob'' ''Fox'' '':'' ''3''] ''name'' ''descending''
     = Inr [init ''Bob'' ''Ray'' '':'' ''5'', init ''Bob'' ''Fox'' '':'' ''3'',
            init ''Ann'' ''Lee'' ''-'' ''7'']
   \<and> sort_phone_book 
     [init ''Bob'' ''Ray'' '':'' ''5'', init ''Ann'' ''Lee'' ''-'' ''7'',
      init ''Bob'' ''Fox'' '':'' ''3''] ''name'' ''Descending''
     = Inr [init ''Ann'' ''Lee'' ''-'' ''7'', init ''Bob'' ''Ray'' '':'' ''5'',
            init ''Bob'' ''Fox'' '':'' ''3'']
   \<and> sort_phone_book 
     [init ''Bob'' ''Ray'' '':'' ''5'', init ''Ann'' ''Lee'' ''-'' ''7'',
      init ''Bob'' ''Fox'' '':'' ''3''] ''name'' []
     = Inr [init ''Ann'' ''Lee'' ''-'' ''7'', init ''Bob'' ''Ray'' '':'' ''5'',
            init ''Bob'' ''Fox'' '':'' ''3'']
   \<and> \<not> non_increasing ''name''
       [init ''Ann'' ''Lee'' ''-'' ''7'', init ''Bob'' ''Ray'' '':'' ''5'',
        init ''Bob'' ''Fox'' '':'' ''3'']"
  using sort_phone_book_ordering [of "''name''" "
     [init ''Bob'' ''Ray'' '':'' ''5'', init ''Ann'' ''Lee'' ''-'' ''7'',
      init ''Bob'' ''Fox'' '':'' ''3'']" "''descending''"]
    sort_phone_book_ordering [of "''name''" "
     [init ''Bob'' ''Ray'' '':'' ''5'', init ''Ann'' ''Lee'' ''-'' ''7'',
      init ''Bob'' ''Fox'' '':'' ''3'']" "''Descending''"]
    sort_phone_book_ordering [of "''name''" "
     [init ''Bob'' ''Ray'' '':'' ''5'', init ''Ann'' ''Lee'' ''-'' ''7'',
      init ''Bob'' ''Fox'' '':'' ''3'']" "[]"]
  by (simp add: sort_phone_book_def sorted_py_def getattr_def init_def non_increasing_def)

text \<open>
  C9. For every input list, valid criterion and ordering, the sorted output is a
  permutation of the input: the same multiset of entries and the same length.
\<close>

theorem sort_phone_book_permutation:
  assumes "criteria \<in> {''name'', ''surname'', ''phone_number''}"
  shows "\<exists>ys. sort_phone_book xs criteria ordering' = Inr ys
           \<and> mset ys = mset xs \<and> length ys = length xs"
  using assms
  by (simp only: sort_phone_book_Inr) (simp add: mset_sorted_py length_sorted_py)

text \<open>
  C9 at a concrete input.
\<close>

theorem sort_phone_book_permutation_witness:
  "sort_phone_book 
     [init ''Bob'' ''Ray'' '':'' ''5'', init ''Ann'' ''Lee'' ''-'' ''7'',
      init ''Bob'' ''Fox'' '':'' ''3''] ''name'' ''descending''
     = Inr [init ''Bob'' ''Ray'' '':'' ''5'', init ''Bob'' ''Fox'' '':'' ''3'',
            init ''Ann'' ''Lee'' ''-'' ''7'']
   \<and> mset [init ''Bob'' ''Ray'' '':'' ''5'', init ''Bob'' ''Fox'' '':'' ''3'',
            init ''Ann'' ''Lee'' ''-'' ''7'']
     = mset 
     [init ''Bob'' ''Ray'' '':'' ''5'', init ''Ann'' ''Lee'' ''-'' ''7'',
      init ''Bob'' ''Fox'' '':'' ''3'']"
  using sort_phone_book_permutation [of "''name''" "
     [init ''Bob'' ''Ray'' '':'' ''5'', init ''Ann'' ''Lee'' ''-'' ''7'',
      init ''Bob'' ''Fox'' '':'' ''3'']" "''descending''"]
  by (simp add: sort_phone_book_def sorted_py_def getattr_def init_def)

section \<open>Entry: the phone number setter\<close>




section \<open>Parser: the claims\<close>

text \<open>
  C6. When the file can be read, the parser returns, in file order, what each line
  contributes. The tokens of a line are the line split on runs of whitespace, as
  \<open>line.strip().split()\<close> computes them. A line of exactly four tokens contributes the
  entry with name, surname, separator and phone_number set to the tokens in order; a line
  of exactly three tokens contributes the entry with name, separator and phone_number set
  to the tokens and the empty surname; a line with any other number of tokens contributes
  nothing.
\<close>

theorem read_phone_book_lines:
  assumes "fs file_path = Lines ls"
  shows "read_phone_book fs file_path = Inr (concat (map line_entries ls))
         \<and> tokens line = str_split (str_strip line)
         \<and> (tokens line = [a, b, c, d] \<longrightarrow>
              line_entries line
                = [\<lparr>name = a, surname = b, separator = c, phone_number = d\<rparr>])
         \<and> (tokens line = [a, c, d] \<longrightarrow>
              line_entries line
                = [\<lparr>name = a, surname = [], separator = c, phone_number = d\<rparr>])
         \<and> (length (tokens line) \<noteq> 4 \<and> length (tokens line) \<noteq> 3 \<longrightarrow>
              line_entries line = [])"
proof -
  have "read_phone_book fs file_path = Inr (concat (map line_entries ls))"
    using assms by (simp add: read_phone_book_def read_lines_entries)
  moreover have "tokens line = str_split (str_strip line)"
    by (simp add: split_strip)
  ultimately show ?thesis
    using line_entries_cases [of line a b c d] by simp
qed

text \<open>
  C6 at a concrete file: a line of four tokens, a line of three tokens with a leading tab,
  several blanks between tokens and a carriage return, a line of two tokens, an empty
  line, a line of five tokens, and a last line without a line end whose fields are
  invalid.
\<close>

theorem read_phone_book_lines_witness:
  "read_phone_book
     (\<lambda>p. Lines
        [''Ann Lee - 123456789'' @ [CHR 0x0A],
         [CHR 0x09] @ ''Bob  :   12345 '' @ [CHR 0x0D, CHR 0x0A],
         ''only two'' @ [CHR 0x0A],
         [CHR 0x0A],
         ''one two three four five'' @ [CHR 0x0A],
         ''Cid Fox * 12x''])
     ''book.txt''
   = Inr
     [\<lparr>name = ''Ann'', surname = ''Lee'', separator = ''-'', phone_number = ''123456789''\<rparr>,
      \<lparr>name = ''Bob'', surname = [], separator = '':'', phone_number = ''12345''\<rparr>,
      \<lparr>name = ''Cid'', surname = ''Fox'', separator = ''*'', phone_number = ''12x''\<rparr>]"
  using read_phone_book_lines
    [where fs = "\<lambda>p. Lines
        [''Ann Lee - 123456789'' @ [CHR 0x0A],
         [CHR 0x09] @ ''Bob  :   12345 '' @ [CHR 0x0D, CHR 0x0A],
         ''only two'' @ [CHR 0x0A],
         [CHR 0x0A],
         ''one two three four five'' @ [CHR 0x0A],
         ''Cid Fox * 12x'']"
      and file_path = "''book.txt''"
      and ls = "[''Ann Lee - 123456789'' @ [CHR 0x0A],
         [CHR 0x09] @ ''Bob  :   12345 '' @ [CHR 0x0D, CHR 0x0A],
         ''only two'' @ [CHR 0x0A],
         [CHR 0x0A],
         ''one two three four five'' @ [CHR 0x0A],
         ''Cid Fox * 12x'']"
      and line = "[]" and a = "[]" and b = "[]" and c = "[]" and d = "[]"]
  by (simp add: line_entries_def tokens_def isspace_def)

text \<open>
  C10. Every entry the parser returns has a non-empty name, separator and phone_number,
  none of its four fields contains a whitespace character, and the Validator does not
  return "Name cannot be empty" for it.
\<close>

theorem parsed_entry_fields:
  assumes "read_phone_book fs file_path = Inr es" and "e \<in> set es"
  shows "name e \<noteq> [] \<and> separator e \<noteq> [] \<and> phone_number e \<noteq> []
         \<and> list_all (\<lambda>c. \<not> isspace c) (name e @ surname e @ separator e @ phone_number e)
         \<and> ''Name cannot be empty'' \<notin> set (validate_phone_book_entry e)"
proof -
  from assms(1) obtain ls where "fs file_path = Lines ls"
    and es: "es = concat (map line_entries ls)"
    by (auto simp: read_phone_book_def read_lines_entries split: file_result.splits)
  with assms(2) obtain line where "e \<in> set (line_entries line)"
    by auto
  then have f: "name e \<noteq> [] \<and> separator e \<noteq> [] \<and> phone_number e \<noteq> []
         \<and> list_all (\<lambda>c. \<not> isspace c) (name e @ surname e @ separator e @ phone_number e)"
    by (rule line_entries_fields)
  then have "''Name cannot be empty'' \<notin> set (validate_phone_book_entry e)"
    by (simp add: validate_name_message)
  with f show ?thesis by simp
qed

text \<open>
  C10 at a concrete file: the entry of the three-token line.
\<close>

theorem parsed_entry_fields_witness:
  "read_phone_book
     (\<lambda>p. Lines [''Ann Lee - 123456789'' @ [CHR 0x0A], '' Bob  : 12345'' @ [CHR 0x0A]])
     ''book.txt''
   = Inr [init ''Ann'' ''Lee'' ''-'' ''123456789'', init ''Bob'' [] '':'' ''12345'']
   \<and> name (init ''Bob'' [] '':'' ''12345'') \<noteq> []
   \<and> separator (init ''Bob'' [] '':'' ''12345'') \<noteq> []
   \<and> phone_number (init ''Bob'' [] '':'' ''12345'') \<noteq> []
   \<and> ''Name cannot be empty''
        \<notin> set (validate_phone_book_entry (init ''Bob'' [] '':'' ''12345''))"
proof -
  have r: "read_phone_book
     (\<lambda>p. Lines [''Ann Lee - 123456789'' @ [CHR 0x0A], '' Bob  : 12345'' @ [CHR 0x0A]])
     ''book.txt''
   = Inr [init ''Ann'' ''Lee'' ''-'' ''123456789'', init ''Bob'' [] '':'' ''12345'']"
    by (simp add: read_phone_book_def read_lines_entries line_entries_def tokens_def
        isspace_def init_def)
  have m: "init ''Bob'' [] '':'' ''12345''
             \<in> set [init ''Ann'' ''Lee'' ''-'' ''123456789'', init ''Bob'' [] '':'' ''12345'']"
    by simp
  from parsed_entry_fields [OF r m] r show ?thesis by simp
qed

end
